theory Spec2Isabelle
  imports Complex_Main "HOL-Library.AList" "HOL-Library.Product_Lexorder"
begin

section \<open>Values and errors\<close>

text \<open>
  The provider's responses and the venue dictionaries are JSON-shaped Python values
  (\<^verbatim>\<open>Dict[str, Any]\<close>). Python floats are modelled as reals: rounding, infinities and NaN
  are outside this development. A dictionary is an association list in insertion order.
\<close>

datatype json =
    JNone
  | JBool bool
  | JInt int
  | JFloat real
  | JStr string
  | JList "json list"
  | JDict "(string \<times> json) list"

type_synonym dict = "(string \<times> json) list"

text \<open>The exceptions the modelled functions can raise.\<close>

datatype error =
    ValueError
  | TypeError
  | AttributeError
  | JSONDecodeError
  | RequestException

text \<open>Python truthiness of a value, as tested by \<^verbatim>\<open>if not x\<close> and \<^verbatim>\<open>x or y\<close>.\<close>

fun truthy :: "json \<Rightarrow> bool" where
  "truthy JNone = False"
| "truthy (JBool b) = b"
| "truthy (JInt i) = (i \<noteq> 0)"
| "truthy (JFloat x) = (x \<noteq> 0)"
| "truthy (JStr s) = (s \<noteq> [])"
| "truthy (JList xs) = (xs \<noteq> [])"
| "truthy (JDict kvs) = (kvs \<noteq> [])"

text \<open>\<^verbatim>\<open>d.get(k)\<close>: the value bound to \<open>k\<close>, or \<^verbatim>\<open>None\<close>.\<close>

definition dict_get :: "dict \<Rightarrow> string \<Rightarrow> json" where
  "dict_get d k = (case map_of d k of None \<Rightarrow> JNone | Some v \<Rightarrow> v)"

text \<open>\<^verbatim>\<open>a or b\<close>.\<close>

definition py_or :: "json \<Rightarrow> json \<Rightarrow> json" where
  "py_or a b = (if truthy a then a else b)"

text \<open>Reading a value as a number: Python's \<^verbatim>\<open>bool\<close> is a subclass of \<^verbatim>\<open>int\<close>.\<close>

fun is_number :: "json \<Rightarrow> bool" where
  "is_number (JInt i) = True"
| "is_number (JFloat x) = True"
| "is_number (JBool b) = True"
| "is_number v = False"

fun num :: "json \<Rightarrow> real" where
  "num (JInt i) = real_of_int i"
| "num (JFloat x) = x"
| "num (JBool b) = (if b then 1 else 0)"
| "num v = 0"

text \<open>
  \<^verbatim>\<open>x.get(k)\<close> on an arbitrary value: only a dictionary has the method, anything else
  raises \<^verbatim>\<open>AttributeError\<close>.
\<close>

fun py_get :: "json \<Rightarrow> string \<Rightarrow> error + json" where
  "py_get (JDict kvs) k = Inr (dict_get kvs k)"
| "py_get v k = Inl AttributeError"

text \<open>
  \<^verbatim>\<open>for d in x\<close>: a list yields its elements, a string its characters, a dictionary its
  keys; a number, a boolean or \<^verbatim>\<open>None\<close> raises \<^verbatim>\<open>TypeError\<close>.
\<close>

fun py_iter :: "json \<Rightarrow> error + json list" where
  "py_iter (JList xs) = Inr xs"
| "py_iter (JStr s) = Inr (map (\<lambda>c. JStr [c]) s)"
| "py_iter (JDict kvs) = Inr (map (\<lambda>kv. JStr (fst kv)) kvs)"
| "py_iter v = Inl TypeError"

text \<open>
  \<^verbatim>\<open>float(x)\<close>. The parser of decimal strings is Python's own and is taken as the
  parameter \<open>str_to_float\<close>; \<^verbatim>\<open>None\<close>, lists and dictionaries raise \<^verbatim>\<open>TypeError\<close>, an
  unparsable string raises \<^verbatim>\<open>ValueError\<close>.
\<close>

fun py_float :: "(string \<Rightarrow> real option) \<Rightarrow> json \<Rightarrow> error + real" where
  "py_float str_to_float (JInt i) = Inr (real_of_int i)"
| "py_float str_to_float (JFloat x) = Inr x"
| "py_float str_to_float (JBool b) = Inr (if b then 1 else 0)"
| "py_float str_to_float (JStr s) =
     (case str_to_float s of None \<Rightarrow> Inl ValueError | Some x \<Rightarrow> Inr x)"
| "py_float str_to_float v = Inl TypeError"

text \<open>\<^verbatim>\<open>xs[:n]\<close>: a negative \<open>n\<close> counts from the end.\<close>

definition slice_to :: "'a list \<Rightarrow> int \<Rightarrow> 'a list" where
  "slice_to xs n =
     (if 0 \<le> n then take (nat n) xs else take (length xs - nat (- n)) xs)"

section \<open>GeoMath: \<^verbatim>\<open>utils/foottraffic_helper.py\<close>\<close>

text \<open>
  The functions of Python's \<^verbatim>\<open>math\<close> module that \<^verbatim>\<open>haversine_meters\<close> calls.
  \<^verbatim>\<open>math.sqrt\<close> raises \<^verbatim>\<open>ValueError\<close> on a negative argument; \<^verbatim>\<open>math.atan2 y x\<close> is the
  angle of the point \<open>(x, y)\<close> in \<open>(-\<pi>, \<pi>]\<close>.
\<close>

definition radians :: "real \<Rightarrow> real" where
  "radians x = x * (pi / 180)"

definition math_sqrt :: "real \<Rightarrow> error + real" where
  "math_sqrt x = (if x < 0 then Inl ValueError else Inr (sqrt x))"

definition atan2 :: "real \<Rightarrow> real \<Rightarrow> real" where
  "atan2 y x =
     (if 0 < x then arctan (y / x)
      else if x < 0 then (if 0 \<le> y then arctan (y / x) + pi else arctan (y / x) - pi)
      else if 0 < y then pi / 2
      else if y < 0 then - (pi / 2)
      else 0)"

text \<open>
  \<^verbatim>\<open>
  def haversine_meters(lat1, lon1, lat2, lon2):
      R = 6371008.8
      phi1 = math.radians(lat1)
      phi2 = math.radians(lat2)
      dphi = math.radians(lat2 - lat1)
      dlambda = math.radians(lon2 - lon1)
      a = math.sin(dphi/2.0)**2 + math.cos(phi1) * math.cos(phi2) * math.sin(dlambda/2.0)**2
      c = 2 * math.atan2(math.sqrt(a), math.sqrt(1-a))
      return R * c
  \<close>
\<close>

definition hav_a :: "real \<Rightarrow> real \<Rightarrow> real \<Rightarrow> real \<Rightarrow> real" where
  "hav_a lat1 lon1 lat2 lon2 =
     (let phi1 = radians lat1;
          phi2 = radians lat2;
          dphi = radians (lat2 - lat1);
          dlambda = radians (lon2 - lon1)
      in (sin (dphi / 2))\<^sup>2 + cos phi1 * cos phi2 * (sin (dlambda / 2))\<^sup>2)"

definition haversine_meters :: "real \<Rightarrow> real \<Rightarrow> real \<Rightarrow> real \<Rightarrow> error + real" where
  "haversine_meters lat1 lon1 lat2 lon2 =
     (let R = 63710088 / 10;
          a = hav_a lat1 lon1 lat2 lon2
      in case math_sqrt a of
           Inl e \<Rightarrow> Inl e
         | Inr sa \<Rightarrow>
             (case math_sqrt (1 - a) of
                Inl e \<Rightarrow> Inl e
              | Inr sb \<Rightarrow> Inr (R * (2 * atan2 sa sb))))"

text \<open>
  \<^verbatim>\<open>
  def average_day_mean(venue):
      forecasts = venue.get("venue_foot_traffic_forecast") or []
      means = []
      for d in forecasts:
          info = d.get("day_info") or {}
          m = info.get("day_mean")
          if isinstance(m, (int, float)):
              means.append(m)
      return sum(means) / len(means) if means else 0.0
  \<close>
  \<open>collect_means\<close> is the loop, with \<open>means\<close> as its accumulator.
\<close>

fun collect_means :: "json list \<Rightarrow> real list \<Rightarrow> error + real list" where
  "collect_means [] means = Inr means"
| "collect_means (d # ds) means =
     (case py_get d ''day_info'' of
        Inl e \<Rightarrow> Inl e
      | Inr i \<Rightarrow>
          (case py_get (py_or i (JDict [])) ''day_mean'' of
             Inl e \<Rightarrow> Inl e
           | Inr m \<Rightarrow>
               if is_number m then collect_means ds (means @ [num m])
               else collect_means ds means))"

definition average_day_mean :: "dict \<Rightarrow> error + real" where
  "average_day_mean venue =
     (case py_iter (py_or (dict_get venue ''venue_foot_traffic_forecast'') (JList [])) of
        Inl e \<Rightarrow> Inl e
      | Inr forecasts \<Rightarrow>
          (case collect_means forecasts [] of
             Inl e \<Rightarrow> Inl e
           | Inr means \<Rightarrow>
               Inr (if means \<noteq> [] then sum_list means / real (length means) else 0)))"

section \<open>VenueRanker: \<^verbatim>\<open>top_closest_with_foot_traffic\<close>\<close>

text \<open>
  The venue dictionaries are mutable objects that the caller keeps, so they live in a
  store: an object is addressed by its position, \<^verbatim>\<open>dict(v)\<close> allocates a new object
  behind the existing ones, and \<^verbatim>\<open>x[k] = v\<close> writes to the object at an address.
  The values inside a dictionary are never written by this code and stay plain values.
\<close>

type_synonym ref = nat

type_synonym heap = "dict list"

definition alloc :: "heap \<Rightarrow> dict \<Rightarrow> heap \<times> ref" where
  "alloc h d = (h @ [d], length h)"

definition setitem :: "heap \<Rightarrow> ref \<Rightarrow> string \<Rightarrow> json \<Rightarrow> heap" where
  "setitem h r k v = h[r := AList.update k v (h ! r)]"

text \<open>
  \<^verbatim>\<open>
  def top_closest_with_foot_traffic(venues, target_lat, target_lon, top_n=2):
      candidates = []
      for v in venues:
          if not v.get("forecast"):
              continue
          lat = v.get("venue_lat")
          lon = v.get("venue_lon")
          if lat is None or lon is None:
              continue
          dist = haversine_meters(target_lat, target_lon, float(lat), float(lon))
          avg_mean = average_day_mean(v)
          v_copy = dict(v)  # shallow copy to avoid mutating original
          v_copy["_distance_m"] = dist
          v_copy["_avg_day_mean"] = avg_mean
          candidates.append(v_copy)
      candidates.sort(key=lambda x: (x["_distance_m"], -x["_avg_day_mean"]))
      return candidates[:top_n]
  \<close>
  \<open>build_candidates\<close> is the loop; it returns the store together with either the
  exception raised or the list \<open>candidates\<close>.
\<close>

fun build_candidates ::
  "(string \<Rightarrow> real option) \<Rightarrow> real \<Rightarrow> real \<Rightarrow> ref list \<Rightarrow> heap \<Rightarrow> ref list
    \<Rightarrow> heap \<times> (error + ref list)" where
  "build_candidates sf target_lat target_lon [] h candidates = (h, Inr candidates)"
| "build_candidates sf target_lat target_lon (v # vs) h candidates =
     (let d = h ! v in
      if \<not> truthy (dict_get d ''forecast'') then
        build_candidates sf target_lat target_lon vs h candidates
      else
        let lat = dict_get d ''venue_lat'';
            lon = dict_get d ''venue_lon''
        in if lat = JNone \<or> lon = JNone then
             build_candidates sf target_lat target_lon vs h candidates
           else
             (case py_float sf lat of
                Inl e \<Rightarrow> (h, Inl e)
              | Inr la \<Rightarrow>
             (case py_float sf lon of
                Inl e \<Rightarrow> (h, Inl e)
              | Inr lo \<Rightarrow>
             (case haversine_meters target_lat target_lon la lo of
                Inl e \<Rightarrow> (h, Inl e)
              | Inr distance \<Rightarrow>
             (case average_day_mean d of
                Inl e \<Rightarrow> (h, Inl e)
              | Inr avg_mean \<Rightarrow>
                  let (h1, v_copy) = alloc h d;
                      h2 = setitem h1 v_copy ''_distance_m'' (JFloat distance);
                      h3 = setitem h2 v_copy ''_avg_day_mean'' (JFloat avg_mean)
                  in build_candidates sf target_lat target_lon vs h3
                       (candidates @ [v_copy]))))))"

text \<open>The sort key \<^verbatim>\<open>(x["_distance_m"], -x["_avg_day_mean"])\<close>, compared as Python tuples.\<close>

definition rank_key :: "heap \<Rightarrow> ref \<Rightarrow> real \<times> real" where
  "rank_key h x =
     (num (dict_get (h ! x) ''_distance_m''), - num (dict_get (h ! x) ''_avg_day_mean''))"

definition top_closest_with_foot_traffic ::
  "(string \<Rightarrow> real option) \<Rightarrow> heap \<Rightarrow> ref list \<Rightarrow> real \<Rightarrow> real \<Rightarrow> int
    \<Rightarrow> heap \<times> (error + ref list)" where
  "top_closest_with_foot_traffic sf h venues target_lat target_lon top_n =
     (case build_candidates sf target_lat target_lon venues h [] of
        (h', Inl e) \<Rightarrow> (h', Inl e)
      | (h', Inr candidates) \<Rightarrow>
          (h', Inr (slice_to (sort_key (rank_key h') candidates) top_n)))"

section \<open>Vocabulary of the ranking properties\<close>

text \<open>The two tests of the loop that let a venue through: a truthy \<^verbatim>\<open>forecast\<close> field and both
  coordinates different from \<^verbatim>\<open>None\<close>.\<close>

definition passes_filter :: "dict \<Rightarrow> bool" where
  "passes_filter d =
     (truthy (dict_get d ''forecast'')
      \<and> dict_get d ''venue_lat'' \<noteq> JNone
      \<and> dict_get d ''venue_lon'' \<noteq> JNone)"

text \<open>The copy of a venue with its two derived fields attached.\<close>

definition enrich :: "real \<Rightarrow> real \<Rightarrow> dict \<Rightarrow> dict" where
  "enrich distance avg_mean d =
     AList.update ''_avg_day_mean'' (JFloat avg_mean)
       (AList.update ''_distance_m'' (JFloat distance) d)"

text \<open>The values computed for a venue that passed the tests, or the exception raised.\<close>

definition prepared ::
  "(string \<Rightarrow> real option) \<Rightarrow> real \<Rightarrow> real \<Rightarrow> dict \<Rightarrow> error + real \<times> real" where
  "prepared sf target_lat target_lon d =
     (case py_float sf (dict_get d ''venue_lat'') of
        Inl e \<Rightarrow> Inl e
      | Inr la \<Rightarrow>
     (case py_float sf (dict_get d ''venue_lon'') of
        Inl e \<Rightarrow> Inl e
      | Inr lo \<Rightarrow>
     (case haversine_meters target_lat target_lon la lo of
        Inl e \<Rightarrow> Inl e
      | Inr distance \<Rightarrow>
     (case average_day_mean d of
        Inl e \<Rightarrow> Inl e
      | Inr avg_mean \<Rightarrow> Inr (distance, avg_mean)))))"

text \<open>An entry whose derived fields are the distance and the mean computed from its own data.\<close>

definition enriched :: "(string \<Rightarrow> real option) \<Rightarrow> real \<Rightarrow> real \<Rightarrow> dict \<Rightarrow> bool" where
  "enriched sf target_lat target_lon d =
     (case (py_float sf (dict_get d ''venue_lat''), py_float sf (dict_get d ''venue_lon'')) of
        (Inr la, Inr lo) \<Rightarrow>
          (case (haversine_meters target_lat target_lon la lo, average_day_mean d) of
             (Inr distance, Inr avg_mean) \<Rightarrow>
               map_of d ''_distance_m'' = Some (JFloat distance)
               \<and> map_of d ''_avg_day_mean'' = Some (JFloat avg_mean)
           | _ \<Rightarrow> False)
      | _ \<Rightarrow> False)"

definition ranked_entry :: "(string \<Rightarrow> real option) \<Rightarrow> real \<Rightarrow> real \<Rightarrow> dict \<Rightarrow> bool" where
  "ranked_entry sf tlat tlon d = (passes_filter d \<and> enriched sf tlat tlon d)"




section \<open>Example inputs\<close>

text \<open>A day of a forecast series with the given \<^verbatim>\<open>day_mean\<close>, and venues at the coordinate
  \<open>(1, 2)\<close>.\<close>

definition day :: "json \<Rightarrow> json" where
  "day m = JDict [(''day_info'', JDict [(''day_mean'', m)])]"

definition venue_quiet :: dict where
  "venue_quiet =
     [(''forecast'', JBool True), (''venue_lat'', JInt 1), (''venue_lon'', JInt 2),
      (''venue_foot_traffic_forecast'', JList [day (JInt 5)])]"

definition venue_busy :: dict where
  "venue_busy =
     [(''forecast'', JBool True), (''venue_lat'', JInt 1), (''venue_lon'', JInt 2),
      (''venue_foot_traffic_forecast'', JList [day (JInt 10)])]"

definition venue_flag_only :: dict where
  "venue_flag_only =
     [(''forecast'', JBool True), (''venue_lat'', JInt 1), (''venue_lon'', JInt 2),
      (''venue_foot_traffic_forecast'', JList [])]"

text \<open>A string parser that accepts nothing.\<close>

definition no_parse :: "string \<Rightarrow> real option" where
  "no_parse s = None"

section \<open>Vocabulary of the forecast mean\<close>

text \<open>
  A series element from which the loop can read a \<^verbatim>\<open>day_mean\<close>: a dictionary whose
  \<^verbatim>\<open>day_info\<close> is a dictionary, absent or falsy; and the value the loop reads from it.
\<close>

definition day_mean_of :: "json \<Rightarrow> json" where
  "day_mean_of d =
     (case d of
        JDict kvs \<Rightarrow>
          (case py_or (dict_get kvs ''day_info'') (JDict []) of
             JDict info \<Rightarrow> dict_get info ''day_mean''
           | _ \<Rightarrow> JNone)
      | _ \<Rightarrow> JNone)"

definition well_formed_day :: "json \<Rightarrow> bool" where
  "well_formed_day d =
     (case d of
        JDict kvs \<Rightarrow>
          (case py_or (dict_get kvs ''day_info'') (JDict []) of
             JDict info \<Rightarrow> True
           | _ \<Rightarrow> False)
      | _ \<Rightarrow> False)"

text \<open>The numeric day means of a series, in order.\<close>

definition present_means :: "json list \<Rightarrow> real list" where
  "present_means ds = map num (filter is_number (map day_mean_of ds))"

text \<open>A series with an absent mean, and a series holding a null entry.\<close>

definition venue_partial :: dict where
  "venue_partial =
     [(''venue_foot_traffic_forecast'', JList [day (JInt 10), day JNone, day (JInt 20)])]"

definition venue_null_day :: dict where
  "venue_null_day = [(''venue_foot_traffic_forecast'', JList [JNone])]"

section \<open>ProviderClient: \<^verbatim>\<open>besttime_get_json\<close>\<close>

text \<open>
  The provider is reached through \<^verbatim>\<open>requests.get\<close> and time passes through
  \<^verbatim>\<open>time.time\<close> and \<^verbatim>\<open>time.sleep\<close>. Both are made explicit: a \<open>world\<close> holds the
  clock and the log of the requests sent so far, each with the time at which it was sent.
  A \<open>provider\<close> answers the \<open>n\<close>-th request with a response, or with nothing when the
  transport fails (\<^verbatim>\<open>requests\<close> raises), and takes \<open>latency n\<close> seconds to do so. A
  response whose body does not parse as JSON has \<open>json_body = None\<close>.
\<close>

record request =
  req_method :: string
  req_url :: string
  req_params :: dict

record response =
  status_code :: int
  reason :: string
  json_body :: "json option"
  text_body :: string

text \<open>\<^verbatim>\<open>r.ok\<close>: the status is below 400.\<close>

definition ok :: "response \<Rightarrow> bool" where
  "ok r = (status_code r < 400)"

record provider =
  reply :: "nat \<Rightarrow> request \<Rightarrow> response option"
  latency :: "nat \<Rightarrow> real"

record world =
  clock :: real
  sent :: "(real \<times> request) list"

text \<open>\<^verbatim>\<open>requests.get(url, params=params, timeout=timeout)\<close>: only the URL and the query
  parameters are given to the call, no header and no credential.\<close>

definition requests_get :: "provider \<Rightarrow> string \<Rightarrow> dict \<Rightarrow> world \<Rightarrow> (error + response) \<times> world" where
  "requests_get p url params w =
     (let n = length (sent w);
          rq = \<lparr>req_method = ''GET'', req_url = url, req_params = params\<rparr>;
          w' = w\<lparr>clock := clock w + latency p n, sent := sent w @ [(clock w, rq)]\<rparr>
      in case reply p n rq of
           None \<Rightarrow> (Inl RequestException, w')
         | Some r \<Rightarrow> (Inr r, w'))"

text \<open>\<^verbatim>\<open>time.sleep(s)\<close>: a negative argument raises \<^verbatim>\<open>ValueError\<close>.\<close>

definition sleep :: "real \<Rightarrow> world \<Rightarrow> error + world" where
  "sleep s w = (if s < 0 then Inl ValueError else Inr (w\<lparr>clock := clock w + s\<rparr>))"

text \<open>\<^verbatim>\<open>s.rstrip('/')\<close>, \<^verbatim>\<open>s.lstrip('/')\<close> and \<^verbatim>\<open>str(i)\<close> of an integer.\<close>

definition rstrip_slash :: "string \<Rightarrow> string" where
  "rstrip_slash s = rev (dropWhile (\<lambda>c. c = CHR ''/'') (rev s))"

definition lstrip_slash :: "string \<Rightarrow> string" where
  "lstrip_slash s = dropWhile (\<lambda>c. c = CHR ''/'') s"

fun digits :: "nat \<Rightarrow> string" where
  "digits n =
     (if n < 10 then [char_of (48 + n)]
      else digits (n div 10) @ [char_of (48 + n mod 10)])"

definition str_int :: "int \<Rightarrow> string" where
  "str_int i = (if i < 0 then CHR ''-'' # digits (nat (- i)) else digits (nat i))"

text \<open>
  \<^verbatim>\<open>
  def besttime_get_json(endpoint: str, params: dict, timeout: int = 30):
      url = f"{BESTTIME_BASE.rstrip('/')}/{endpoint.lstrip('/')}"
      logger.info("GET %s params=%s", url, params)
      r = requests.get(url, params=params, timeout=timeout)
      if not r.ok:
          try:
              return {"error": f"{r.status_code} {r.reason}", "details": r.json()}, r.status_code
          except Exception:
              return {"error": f"{r.status_code} {r.reason}", "details": r.text}, r.status_code
      return r.json()
  \<close>
  The function returns either a body or a pair of a body and a status; \<open>base\<close> is the
  value of \<^verbatim>\<open>BESTTIME_BASE\<close>. The parameters are passed on as they are: unlike
  \<^verbatim>\<open>besttime_post_qs\<close>, this function does not add \<^verbatim>\<open>api_key_private\<close>.
\<close>

datatype get_result = Body json | BodyStatus json int

definition besttime_get_json ::
  "provider \<Rightarrow> string \<Rightarrow> string \<Rightarrow> dict \<Rightarrow> world \<Rightarrow> (error + get_result) \<times> world" where
  "besttime_get_json p base endpoint params w =
     (let url = rstrip_slash base @ ''/'' @ lstrip_slash endpoint
      in case requests_get p url params w of
           (Inl e, w') \<Rightarrow> (Inl e, w')
         | (Inr r, w') \<Rightarrow>
             if \<not> ok r then
               (case json_body r of
                  Some j \<Rightarrow>
                    (Inr (BodyStatus
                       (JDict [(''error'', JStr (str_int (status_code r) @ '' '' @ reason r)),
                               (''details'', j)])
                       (status_code r)), w')
                | None \<Rightarrow>
                    (Inr (BodyStatus
                       (JDict [(''error'', JStr (str_int (status_code r) @ '' '' @ reason r)),
                               (''details'', JStr (text_body r))])
                       (status_code r)), w'))
             else
               (case json_body r of
                  Some j \<Rightarrow> (Inr (Body j), w')
                | None \<Rightarrow> (Inl JSONDecodeError, w')))"

section \<open>JobResolver: \<^verbatim>\<open>wait_for_progress_and_get_venues\<close>\<close>

text \<open>
  \<^verbatim>\<open>
      while time.time() < deadline:
          attempt += 1
          params = {"job_id": job_id, "collection_id": collection_id, "format": "raw"}
          resp = besttime_get_json('venues/progress', params)
          if isinstance(resp, tuple):
              body, status = resp
              last_resp = body
          else:
              last_resp = resp
          if isinstance(last_resp, dict):
              if "venues" in last_resp and isinstance(last_resp["venues"], list) and last_resp["venues"]:
                  return last_resp["venues"], last_resp
              for key in ("results", "items", "found_venues"):
                  if key in last_resp and isinstance(last_resp[key], list) and last_resp[key]:
                      return last_resp[key], last_resp
          sleep_time = interval_seconds
          interval_seconds = min(interval_seconds * 1.5, 8)
          time.sleep(sleep_time)
      return None, last_resp
  \<close>
  \<open>list_at d k\<close> is the test \<^verbatim>\<open>k in d and isinstance(d[k], list)\<close> together with the list
  found, \<open>nonempty_list_at\<close> adds the truthiness test, and \<open>find_venues\<close> is the search for
  a venue list in the body of the loop.
\<close>

definition list_at :: "dict \<Rightarrow> string \<Rightarrow> json list option" where
  "list_at d k = (case map_of d k of Some (JList xs) \<Rightarrow> Some xs | _ \<Rightarrow> None)"

definition nonempty_list_at :: "dict \<Rightarrow> string \<Rightarrow> json list option" where
  "nonempty_list_at d k =
     (case list_at d k of
        Some xs \<Rightarrow> if xs \<noteq> [] then Some xs else None
      | None \<Rightarrow> None)"

fun first_list_under :: "dict \<Rightarrow> string list \<Rightarrow> json list option" where
  "first_list_under d [] = None"
| "first_list_under d (k # ks) =
     (case nonempty_list_at d k of
        Some xs \<Rightarrow> Some xs
      | None \<Rightarrow> first_list_under d ks)"

definition find_venues :: "json \<Rightarrow> json list option" where
  "find_venues last_resp =
     (case last_resp of
        JDict d \<Rightarrow>
          (case nonempty_list_at d ''venues'' of
             Some xs \<Rightarrow> Some xs
           | None \<Rightarrow> first_list_under d [''results'', ''items'', ''found_venues''])
      | _ \<Rightarrow> None)"

text \<open>
  The loop may run for any number of rounds, so it is a partial function: \<open>None\<close> stands
  for a run that never returns. A run that returns gives the exception raised, or the pair
  \<^verbatim>\<open>(venues, last_resp)\<close> with \<^verbatim>\<open>venues = None\<close> after the deadline, and the world it
  leaves behind.
\<close>

type_synonym poll_result = "(error + json list option \<times> json) \<times> world"

partial_function (option) poll_loop ::
  "provider \<Rightarrow> string \<Rightarrow> string \<Rightarrow> string \<Rightarrow> real \<Rightarrow> real \<Rightarrow> json \<Rightarrow> nat \<Rightarrow> world
    \<Rightarrow> poll_result option" where
  "poll_loop p base job_id collection_id deadline interval_seconds last_resp attempt w =
     (if clock w < deadline then
        (let attempt' = attempt + 1;
             params = [(''job_id'', JStr job_id), (''collection_id'', JStr collection_id),
                       (''format'', JStr ''raw'')]
         in case besttime_get_json p base ''venues/progress'' params w of
              (Inl e, w1) \<Rightarrow> Some (Inl e, w1)
            | (Inr resp, w1) \<Rightarrow>
                (let last_resp' = (case resp of BodyStatus body status \<Rightarrow> body | Body b \<Rightarrow> b)
                 in case find_venues last_resp' of
                      Some venues \<Rightarrow> Some (Inr (Some venues, last_resp'), w1)
                    | None \<Rightarrow>
                        (let sleep_time = interval_seconds;
                             interval_seconds' = min (interval_seconds * (3 / 2)) 8
                         in case sleep sleep_time w1 of
                              Inl e \<Rightarrow> Some (Inl e, w1)
                            | Inr w2 \<Rightarrow>
                                poll_loop p base job_id collection_id deadline
                                  interval_seconds' last_resp' attempt' w2)))
      else Some (Inr (None, last_resp), w))"

text \<open>
  \<^verbatim>\<open>
  def wait_for_progress_and_get_venues(job_id=None, collection_id=None, progress_url=None,
                                       timeout_seconds=30, interval_seconds=2):
      if progress_url:
          parsed = urlparse(progress_url)
          qs = parse_qs(parsed.query)
          job_id = job_id or (qs.get('job_id', [None])[0])
          collection_id = collection_id or (qs.get('collection_id', [None])[0])
      if not job_id or not collection_id:
          raise ValueError("Either job_id+collection_id or progress_url must be provided")
      deadline = time.time() + timeout_seconds
      last_resp = None
      attempt = 0
      while time.time() < deadline:
          ...
  \<close>
  An argument that may be \<^verbatim>\<open>None\<close> is an option. The parser of URLs is the library's and
  is taken as the parameter \<open>query_param\<close>: \<open>query_param u k\<close> is
  \<^verbatim>\<open>parse_qs(urlparse(u).query).get(k, [None])[0]\<close>.
\<close>

definition str_truthy :: "string option \<Rightarrow> bool" where
  "str_truthy s = (case s of None \<Rightarrow> False | Some x \<Rightarrow> x \<noteq> [])"

definition str_or :: "string option \<Rightarrow> string option \<Rightarrow> string option" where
  "str_or a b = (if str_truthy a then a else b)"

definition wait_for_progress_and_get_venues ::
  "provider \<Rightarrow> string \<Rightarrow> (string \<Rightarrow> string \<Rightarrow> string option)
    \<Rightarrow> string option \<Rightarrow> string option \<Rightarrow> string option \<Rightarrow> real \<Rightarrow> real \<Rightarrow> world
    \<Rightarrow> poll_result option" where
  "wait_for_progress_and_get_venues p base query_param job_id collection_id progress_url
       timeout_seconds interval_seconds w =
     (let (job_id, collection_id) =
            (if str_truthy progress_url then
               (case progress_url of
                  Some u \<Rightarrow>
                    (str_or job_id (query_param u ''job_id''),
                     str_or collection_id (query_param u ''collection_id''))
                | None \<Rightarrow> (job_id, collection_id))
             else (job_id, collection_id))
      in case (job_id, collection_id) of
           (Some j, Some c) \<Rightarrow>
             if j = [] \<or> c = [] then Some (Inl ValueError, w)
             else
               (let deadline = clock w + timeout_seconds
                in poll_loop p base j c deadline interval_seconds JNone 0 w)
         | _ \<Rightarrow> Some (Inl ValueError, w))"

section \<open>The fast path of \<^verbatim>\<open>foot_traffic_closest\<close>\<close>

text \<open>
  \<^verbatim>\<open>
          venues = []
          if isinstance(result, dict):
              if "venues" in result and isinstance(result["venues"], list):
                  venues = result["venues"]
              elif "results" in result and isinstance(result["results"], list):
                  venues = result["results"]
              else:
                  venues = []
          if not venues:
              ... look for a background job and poll ...
  \<close>
  The venues taken from the search response; an empty list sends the handler to the poll
  loop.
\<close>

definition fast_path_venues :: "json \<Rightarrow> json list" where
  "fast_path_venues result =
     (case result of
        JDict d \<Rightarrow>
          (case list_at d ''venues'' of
             Some xs \<Rightarrow> xs
           | None \<Rightarrow>
               (case list_at d ''results'' of
                  Some ys \<Rightarrow> ys
                | None \<Rightarrow> []))
      | _ \<Rightarrow> [])"

section \<open>Vocabulary of the polling properties\<close>

text \<open>The request of one progress poll, and the world after it has been answered.\<close>

definition progress_params :: "string \<Rightarrow> string \<Rightarrow> dict" where
  "progress_params job_id collection_id =
     [(''job_id'', JStr job_id), (''collection_id'', JStr collection_id),
      (''format'', JStr ''raw'')]"

definition progress_request :: "string \<Rightarrow> string \<Rightarrow> string \<Rightarrow> request" where
  "progress_request base job_id collection_id =
     \<lparr>req_method = ''GET'',
      req_url = rstrip_slash base @ ''/venues/progress'',
      req_params = progress_params job_id collection_id\<rparr>"

definition after_call :: "provider \<Rightarrow> string \<Rightarrow> string \<Rightarrow> string \<Rightarrow> world \<Rightarrow> world" where
  "after_call p base job_id collection_id w =
     w\<lparr>clock := clock w + latency p (length (sent w)),
       sent := sent w @ [(clock w, progress_request base job_id collection_id)]\<rparr>"

text \<open>The body that the loop keeps as \<^verbatim>\<open>last_resp\<close> for an answer of the provider: the
  normalized error dictionary for a status of 400 or more.\<close>

definition error_body :: "response \<Rightarrow> json" where
  "error_body r =
     JDict [(''error'', JStr (str_int (status_code r) @ '' '' @ reason r)),
            (''details'', case json_body r of Some j \<Rightarrow> j | None \<Rightarrow> JStr (text_body r))]"

definition poll_body :: "response option \<Rightarrow> error + json" where
  "poll_body x =
     (case x of
        None \<Rightarrow> Inl RequestException
      | Some r \<Rightarrow>
          if ok r then (case json_body r of Some j \<Rightarrow> Inr j | None \<Rightarrow> Inl JSONDecodeError)
          else Inr (error_body r))"

definition call_outcome :: "provider \<Rightarrow> string \<Rightarrow> string \<Rightarrow> string \<Rightarrow> world \<Rightarrow> error + json" where
  "call_outcome p base job_id collection_id w =
     poll_body (reply p (length (sent w)) (progress_request base job_id collection_id))"

text \<open>
  The ways a call of \<^verbatim>\<open>wait_for_progress_and_get_venues\<close> ends: an exception (the
  \<^verbatim>\<open>ValueError\<close> of the missing identifiers, a transport error or an unparsable body), no
  venues once the deadline has passed, or a non-empty venue list found in the last body.
\<close>

definition terminal :: "real \<Rightarrow> error + json list option \<times> json \<Rightarrow> world \<Rightarrow> bool" where
  "terminal deadline res w' =
     (case res of
        Inl e \<Rightarrow> e \<in> {ValueError, RequestException, JSONDecodeError}
      | Inr (None, lr) \<Rightarrow> deadline \<le> clock w'
      | Inr (Some vs, lr) \<Rightarrow> vs \<noteq> [] \<and> find_venues lr = Some vs)"

text \<open>A request as every progress poll sends it: a \<^verbatim>\<open>GET\<close> of \<^verbatim>\<open>venues/progress\<close> with
  the three query parameters \<^verbatim>\<open>job_id\<close>, \<^verbatim>\<open>collection_id\<close> and \<^verbatim>\<open>format=raw\<close>, and
  without \<^verbatim>\<open>api_key_private\<close>.\<close>

definition progress_get :: "string \<Rightarrow> request \<Rightarrow> bool" where
  "progress_get base rq =
     (req_method rq = ''GET''
      \<and> req_url rq = rstrip_slash base @ ''/venues/progress''
      \<and> map fst (req_params rq) = [''job_id'', ''collection_id'', ''format'']
      \<and> map_of (req_params rq) ''format'' = Some (JStr ''raw'')
      \<and> map_of (req_params rq) ''api_key_private'' = None)"

text \<open>The candidate field names in their order, and the first of them bound to a non-empty
  list: the key at position \<open>n\<close> is bound to the non-empty list \<open>vs\<close> and no key before it
  is bound to a non-empty list.\<close>

definition venue_keys :: "string list" where
  "venue_keys = [''venues'', ''results'', ''items'', ''found_venues'']"

definition first_match :: "dict \<Rightarrow> string list \<Rightarrow> nat \<Rightarrow> json list \<Rightarrow> bool" where
  "first_match d ks n vs =
     (n < length ks \<and> list_at d (ks ! n) = Some vs \<and> vs \<noteq> []
      \<and> list_all (\<lambda>k. list_at d k \<in> {None, Some []}) (take n ks))"

section \<open>Example providers\<close>

text \<open>A provider that always answers 200 with an empty object, one that always answers 500
  with a body that is not JSON, and the world at time 0 with nothing sent.\<close>

definition ok_response :: "json \<Rightarrow> response" where
  "ok_response b = \<lparr>status_code = 200, reason = ''OK'', json_body = Some b, text_body = []\<rparr>"


definition quiet_provider :: provider where
  "quiet_provider = \<lparr>reply = (\<lambda>n rq. Some (ok_response (JDict []))), latency = (\<lambda>n. 0)\<rparr>"


definition world0 :: world where
  "world0 = \<lparr>clock = 0, sent = []\<rparr>"

definition base0 :: string where
  "base0 = ''https://besttime.app/api/v1''"

definition no_query :: "string \<Rightarrow> string \<Rightarrow> string option" where
  "no_query u k = None"

text \<open>Search responses whose venue list is under \<^verbatim>\<open>items\<close> only, and under \<^verbatim>\<open>results\<close>
  next to an empty \<^verbatim>\<open>venues\<close>.\<close>

definition items_only :: json where
  "items_only = JDict [(''items'', JList [JStr ''v''])]"

definition empty_venues_and_results :: dict where
  "empty_venues_and_results = [(''venues'', JList []), (''results'', JList [JStr ''r''])]"

section \<open>Properties of GeoMath\<close>

lemma hav_a_same: "hav_a lat lon lat lon = 0"
  by (simp add: hav_a_def radians_def)

lemma hav_a_sym: "hav_a lat1 lon1 lat2 lon2 = hav_a lat2 lon2 lat1 lon1"
proof -
  have flip: "(sin (radians (x - y) / 2))\<^sup>2 = (sin (radians (y - x) / 2))\<^sup>2" for x y :: real
  proof -
    have "radians (x - y) / 2 = - (radians (y - x) / 2)"
      by (simp add: radians_def field_simps)
    then show ?thesis by simp
  qed
  show ?thesis
    unfolding hav_a_def Let_def
    by (simp add: flip [of lat2 lat1] flip [of lon2 lon1] mult.commute)
qed

lemma haversine_same: "haversine_meters lat lon lat lon = Inr 0"
  by (simp add: haversine_meters_def hav_a_same math_sqrt_def atan2_def)

text \<open>
  C8. The great-circle distance of a coordinate to itself is 0, and the distance is
  symmetric in its two coordinates.
\<close>

theorem haversine_zero_and_symmetric:
  "haversine_meters lat lon lat lon = Inr 0
   \<and> haversine_meters lat1 lon1 lat2 lon2 = haversine_meters lat2 lon2 lat1 lon1"
proof
  show "haversine_meters lat lon lat lon = Inr 0"
    by (rule haversine_same)
  show "haversine_meters lat1 lon1 lat2 lon2 = haversine_meters lat2 lon2 lat1 lon1"
    unfolding haversine_meters_def
    by (simp add: hav_a_sym [of lat1 lon1 lat2 lon2])
qed

section \<open>Properties of the venue ranker\<close>

lemma dict_get_update:
  "dict_get (AList.update k v d) k' = (if k' = k then v else dict_get d k')"
  by (simp add: dict_get_def update_conv')

lemma average_day_mean_update:
  "k \<noteq> ''venue_foot_traffic_forecast'' \<Longrightarrow>
   average_day_mean (AList.update k v d) = average_day_mean d"
  by (simp add: average_day_mean_def dict_get_update)

lemma step_heap:
  "setitem (setitem (h @ [d]) (length h) k1 v1) (length h) k2 v2
     = h @ [AList.update k2 v2 (AList.update k1 v1 d)]"
  by (simp add: setitem_def)

lemma passes_filter_enrich:
  "passes_filter d \<Longrightarrow> passes_filter (enrich x y d)"
  by (simp add: passes_filter_def enrich_def dict_get_update)

lemma enriched_enrich:
  assumes "py_float sf (dict_get d ''venue_lat'') = Inr la"
    and "py_float sf (dict_get d ''venue_lon'') = Inr lo"
    and "haversine_meters tlat tlon la lo = Inr x"
    and "average_day_mean d = Inr y"
  shows "enriched sf tlat tlon (enrich x y d)"
  using assms
  by (simp add: enriched_def enrich_def dict_get_update average_day_mean_update update_conv')

lemma build_candidates_skip:
  "\<not> passes_filter (h ! v) \<Longrightarrow>
   build_candidates sf tlat tlon (v # vs) h cs = build_candidates sf tlat tlon vs h cs"
  by (auto simp: passes_filter_def Let_def)

lemma build_candidates_raise:
  "passes_filter (h ! v) \<Longrightarrow> prepared sf tlat tlon (h ! v) = Inl e \<Longrightarrow>
   build_candidates sf tlat tlon (v # vs) h cs = (h, Inl e)"
  by (auto simp: passes_filter_def prepared_def Let_def split: sum.splits)

lemma build_candidates_take:
  "passes_filter (h ! v) \<Longrightarrow> prepared sf tlat tlon (h ! v) = Inr (x, y) \<Longrightarrow>
   build_candidates sf tlat tlon (v # vs) h cs =
     build_candidates sf tlat tlon vs (h @ [enrich x y (h ! v)]) (cs @ [length h])"
  by (auto simp: passes_filter_def prepared_def Let_def alloc_def step_heap enrich_def
      split: sum.splits)

lemma enriched_enrich':
  "prepared sf tlat tlon d = Inr (x, y) \<Longrightarrow> enriched sf tlat tlon (enrich x y d)"
  by (auto simp: prepared_def split: sum.splits intro: enriched_enrich)

lemma build_candidates_frame:
  "build_candidates sf tlat tlon vs h cs = (h', res) \<Longrightarrow> \<exists>new. h' = h @ new"
proof (induction vs arbitrary: h cs)
  case Nil
  then show ?case by simp
next
  case (Cons v vs)
  show ?case
  proof (cases "passes_filter (h ! v)")
    case False
    from Cons.prems have "build_candidates sf tlat tlon vs h cs = (h', res)"
      by (simp only: build_candidates_skip [OF False])
    then show ?thesis by (rule Cons.IH)
  next
    case True
    show ?thesis
    proof (cases "prepared sf tlat tlon (h ! v)")
      case (Inl e)
      from Cons.prems have "h' = h"
        by (simp only: build_candidates_raise [OF True Inl]) simp
      then show ?thesis by simp
    next
      case (Inr p)
      obtain x y where "p = (x, y)" by (cases p)
      with Inr have prep: "prepared sf tlat tlon (h ! v) = Inr (x, y)" by simp
      from Cons.prems
      have "build_candidates sf tlat tlon vs (h @ [enrich x y (h ! v)]) (cs @ [length h]) = (h', res)"
        by (simp only: build_candidates_take [OF True prep])
      from Cons.IH [OF this] show ?thesis by auto
    qed
  qed
qed

lemma build_candidates_entries:
  "build_candidates sf tlat tlon vs h cs = (h', Inr out) \<Longrightarrow>
   \<exists>rs. out = cs @ rs
     \<and> (\<forall>r \<in> set rs. length h \<le> r \<and> r < length h' \<and> ranked_entry sf tlat tlon (h' ! r))"
proof (induction vs arbitrary: h cs)
  case Nil
  then show ?case by simp
next
  case (Cons v vs)
  show ?case
  proof (cases "passes_filter (h ! v)")
    case False
    from Cons.prems have "build_candidates sf tlat tlon vs h cs = (h', Inr out)"
      by (simp only: build_candidates_skip [OF False])
    then show ?thesis by (rule Cons.IH)
  next
    case True
    show ?thesis
    proof (cases "prepared sf tlat tlon (h ! v)")
      case (Inl e)
      from Cons.prems show ?thesis
        by (simp only: build_candidates_raise [OF True Inl]) simp
    next
      case (Inr p)
      obtain x y where p: "p = (x, y)" by (cases p)
      let ?d = "enrich x y (h ! v)"
      from p Inr have prep: "prepared sf tlat tlon (h ! v) = Inr (x, y)" by simp
      from Cons.prems
      have run: "build_candidates sf tlat tlon vs (h @ [?d]) (cs @ [length h]) = (h', Inr out)"
        by (simp only: build_candidates_take [OF True prep])
      from Cons.IH [OF run] obtain rs where
        out: "out = (cs @ [length h]) @ rs"
        and rs: "\<forall>r \<in> set rs. length (h @ [?d]) \<le> r \<and> r < length h'
                   \<and> ranked_entry sf tlat tlon (h' ! r)"
        by blast
      from build_candidates_frame [OF run] obtain new where h': "h' = (h @ [?d]) @ new"
        by blast
      have here: "h' ! length h = ?d"
        by (simp add: h' nth_append)
      have "ranked_entry sf tlat tlon ?d"
        using True prep
        by (simp add: ranked_entry_def passes_filter_enrich enriched_enrich')
      with here have first: "length h \<le> length h \<and> length h < length h'
          \<and> ranked_entry sf tlat tlon (h' ! length h)"
        by (simp add: h')
      have "out = cs @ (length h # rs)"
        by (simp add: out)
      moreover have "\<forall>r \<in> set (length h # rs). length h \<le> r \<and> r < length h'
          \<and> ranked_entry sf tlat tlon (h' ! r)"
        using first rs by auto
      ultimately show ?thesis by blast
    qed
  qed
qed

lemma slice_to_take: "\<exists>m. slice_to xs n = take m xs"
  by (auto simp: slice_to_def)

lemma top_closest_result:
  assumes "top_closest_with_foot_traffic sf h venues tlat tlon top_n = (h', Inr out)"
  shows "\<exists>cs. build_candidates sf tlat tlon venues h [] = (h', Inr cs)
          \<and> out = slice_to (sort_key (rank_key h') cs) top_n"
  using assms
  by (auto simp: top_closest_with_foot_traffic_def split: prod.splits sum.splits)

lemma top_closest_entries:
  assumes "top_closest_with_foot_traffic sf h venues tlat tlon top_n = (h', Inr out)"
    and "r \<in> set out"
  shows "length h \<le> r \<and> r < length h' \<and> ranked_entry sf tlat tlon (h' ! r)"
proof -
  from top_closest_result [OF assms(1)] obtain cs where
    cs: "build_candidates sf tlat tlon venues h [] = (h', Inr cs)"
    and out: "out = slice_to (sort_key (rank_key h') cs) top_n"
    by blast
  obtain m where "out = take m (sort_key (rank_key h') cs)"
    using out slice_to_take by metis
  with assms(2) have "r \<in> set cs"
    by (auto dest: in_set_takeD)
  with build_candidates_entries [OF cs] show ?thesis by auto
qed


lemma example_run:
  "top_closest_with_foot_traffic no_parse [venue_quiet, venue_busy] [0, 1] 1 2 2 =
     ([venue_quiet, venue_busy, enrich 0 5 venue_quiet, enrich 0 10 venue_busy], Inr [3, 2])"
  by (simp add: top_closest_with_foot_traffic_def venue_quiet_def venue_busy_def day_def
      dict_get_def py_or_def average_day_mean_def haversine_same
      alloc_def setitem_def rank_key_def slice_to_def Let_def enrich_def)

lemma example_negative_top_n:
  "top_closest_with_foot_traffic no_parse [venue_quiet, venue_busy] [0, 1] 1 2 (- 1) =
     ([venue_quiet, venue_busy, enrich 0 5 venue_quiet, enrich 0 10 venue_busy], Inr [3])"
  by (simp add: top_closest_with_foot_traffic_def venue_quiet_def venue_busy_def day_def
      dict_get_def py_or_def average_day_mean_def haversine_same
      alloc_def setitem_def rank_key_def slice_to_def Let_def enrich_def)

lemma example_flag_only:
  "top_closest_with_foot_traffic no_parse [venue_flag_only] [0] 1 2 1 =
     ([venue_flag_only, enrich 0 0 venue_flag_only], Inr [1])"
  by (simp add: top_closest_with_foot_traffic_def venue_flag_only_def
      dict_get_def py_or_def average_day_mean_def haversine_same
      alloc_def setitem_def rank_key_def slice_to_def Let_def enrich_def)









text \<open>
  C5, as the code has it. For \<open>top_n \<ge> 0\<close>, a call that returns gives at most \<open>top_n\<close>
  entries, and every returned entry has a truthy \<^verbatim>\<open>forecast\<close> field and both
  \<^verbatim>\<open>venue_lat\<close> and \<^verbatim>\<open>venue_lon\<close> different from \<^verbatim>\<open>None\<close>. The test reads the
  \<^verbatim>\<open>forecast\<close> field, not the day series \<^verbatim>\<open>venue_foot_traffic_forecast\<close>.
\<close>

theorem top_closest_bounded_and_filtered:
  assumes "top_closest_with_foot_traffic sf h venues tlat tlon top_n = (h', Inr out)"
    and "0 \<le> top_n"
  shows "int (length out) \<le> top_n \<and> list_all (\<lambda>r. passes_filter (h' ! r)) out"
proof -
  from top_closest_result [OF assms(1)] obtain cs where
    "out = slice_to (sort_key (rank_key h') cs) top_n"
    by blast
  with assms(2) have "int (length out) \<le> top_n"
    by (simp add: slice_to_def)
  moreover have "list_all (\<lambda>r. passes_filter (h' ! r)) out"
    using top_closest_entries [OF assms(1)]
    by (auto simp: list_all_iff ranked_entry_def)
  ultimately show ?thesis by simp
qed

theorem top_closest_bounded_and_filtered_witness:
  "top_closest_with_foot_traffic no_parse [venue_quiet, venue_busy] [0, 1] 1 2 2 =
     ([venue_quiet, venue_busy, enrich 0 5 venue_quiet, enrich 0 10 venue_busy], Inr [3, 2])
   \<and> (0::int) \<le> 2
   \<and> int (length [3::nat, 2]) \<le> 2
   \<and> list_all
        (\<lambda>r. passes_filter
           ([venue_quiet, venue_busy, enrich 0 5 venue_quiet, enrich 0 10 venue_busy] ! r))
        [3, 2]"
  using top_closest_bounded_and_filtered [OF example_run] example_run
  by simp

text \<open>
  C5 as stated fails in two ways. A venue whose \<^verbatim>\<open>forecast\<close> flag is set and whose day
  series is empty is returned; and with \<open>top_n = -1\<close> the slice drops the last of two
  candidates and returns one entry, more than \<open>top_n\<close>.
\<close>

theorem top_closest_counterexample:
  "top_closest_with_foot_traffic no_parse [venue_flag_only] [0] 1 2 1 =
     ([venue_flag_only, enrich 0 0 venue_flag_only], Inr [1])
   \<and> dict_get (enrich 0 0 venue_flag_only) ''venue_foot_traffic_forecast'' = JList []
   \<and> top_closest_with_foot_traffic no_parse [venue_quiet, venue_busy] [0, 1] 1 2 (- 1) =
     ([venue_quiet, venue_busy, enrich 0 5 venue_quiet, enrich 0 10 venue_busy], Inr [3])
   \<and> \<not> int (length [3::nat]) \<le> - 1"
  using example_flag_only example_negative_top_n
  by (simp add: enrich_def dict_get_update venue_flag_only_def dict_get_def)



text \<open>
  C10. The call leaves every object of the caller's store as it was, on every path
  (the venue list itself is only read: the loop appends to a list of its own). Every
  returned entry is an object allocated by the call and carries both derived fields
  \<^verbatim>\<open>_distance_m\<close> and \<^verbatim>\<open>_avg_day_mean\<close>.
\<close>

theorem top_closest_no_mutation:
  assumes "top_closest_with_foot_traffic sf h venues tlat tlon top_n = (h', res)"
  shows "take (length h) h' = h
    \<and> (case res of
          Inl e \<Rightarrow> True
        | Inr out \<Rightarrow>
            list_all (\<lambda>r. length h \<le> r \<and> r < length h'
              \<and> map_of (h' ! r) ''_distance_m'' \<noteq> None
              \<and> map_of (h' ! r) ''_avg_day_mean'' \<noteq> None) out)"
proof -
  obtain res' where "build_candidates sf tlat tlon venues h [] = (h', res')"
    using assms
    by (auto simp: top_closest_with_foot_traffic_def split: prod.splits sum.splits)
  from build_candidates_frame [OF this] have frame: "take (length h) h' = h"
    by auto
  show ?thesis
  proof (cases res)
    case (Inl e)
    with frame show ?thesis by simp
  next
    case (Inr out)
    have "length h \<le> r \<and> r < length h'
        \<and> map_of (h' ! r) ''_distance_m'' \<noteq> None
        \<and> map_of (h' ! r) ''_avg_day_mean'' \<noteq> None" if "r \<in> set out" for r
    proof -
      from top_closest_entries [OF assms [unfolded Inr] that]
      have *: "length h \<le> r" "r < length h'" "enriched sf tlat tlon (h' ! r)"
        by (simp_all add: ranked_entry_def)
      from *(3) have "map_of (h' ! r) ''_distance_m'' \<noteq> None
          \<and> map_of (h' ! r) ''_avg_day_mean'' \<noteq> None"
        by (auto simp: enriched_def split: sum.splits)
      with * show ?thesis by simp
    qed
    with frame Inr show ?thesis by (simp add: list_all_iff)
  qed
qed

theorem top_closest_no_mutation_witness:
  "top_closest_with_foot_traffic no_parse [venue_quiet, venue_busy] [0, 1] 1 2 2 =
     ([venue_quiet, venue_busy, enrich 0 5 venue_quiet, enrich 0 10 venue_busy], Inr [3, 2])
   \<and> take (length [venue_quiet, venue_busy])
        [venue_quiet, venue_busy, enrich 0 5 venue_quiet, enrich 0 10 venue_busy]
       = [venue_quiet, venue_busy]
   \<and> list_all
        (\<lambda>r. length [venue_quiet, venue_busy] \<le> r
           \<and> map_of ([venue_quiet, venue_busy, enrich 0 5 venue_quiet, enrich 0 10 venue_busy] ! r)
                ''_distance_m'' \<noteq> None
           \<and> map_of ([venue_quiet, venue_busy, enrich 0 5 venue_quiet, enrich 0 10 venue_busy] ! r)
                ''_avg_day_mean'' \<noteq> None)
        [3, 2]"
  using top_closest_no_mutation [OF example_run] example_run
  by simp

section \<open>Properties of the forecast mean\<close>

lemma collect_means_well_formed:
  "list_all well_formed_day ds \<Longrightarrow> collect_means ds means = Inr (means @ present_means ds)"
proof (induction ds arbitrary: means)
  case Nil
  then show ?case by (simp add: present_means_def)
next
  case (Cons d ds)
  from Cons.prems have wf: "well_formed_day d" and rest: "list_all well_formed_day ds"
    by simp_all
  from wf obtain kvs info where d: "d = JDict kvs"
    and info: "py_or (dict_get kvs ''day_info'') (JDict []) = JDict info"
    by (auto simp: well_formed_day_def split: json.splits)
  have m: "day_mean_of d = dict_get info ''day_mean''"
    by (simp add: day_mean_of_def d info)
  show ?case
    using Cons.IH [OF rest]
    by (simp add: d info m [unfolded d] present_means_def)
qed

lemma average_day_mean_well_formed:
  assumes "dict_get venue ''venue_foot_traffic_forecast'' = JList ds"
    and "list_all well_formed_day ds"
  shows "average_day_mean venue =
    Inr (if present_means ds = [] then 0
         else sum_list (present_means ds) / real (length (present_means ds)))"
  using assms(1) collect_means_well_formed [OF assms(2), of "[]"]
  by (cases "ds = []") (simp_all add: average_day_mean_def py_or_def present_means_def)

lemma average_day_mean_absent:
  "\<not> truthy (dict_get venue ''venue_foot_traffic_forecast'') \<Longrightarrow> average_day_mean venue = Inr 0"
  by (simp add: average_day_mean_def py_or_def)

lemma average_day_mean_partial: "average_day_mean venue_partial = Inr 15"
  by (simp add: average_day_mean_def venue_partial_def day_def dict_get_def py_or_def)

text \<open>
  C7. The mean is not total on every venue dictionary: a series that holds a null entry
  makes \<^verbatim>\<open>d.get("day_info")\<close> raise \<^verbatim>\<open>AttributeError\<close>. On a series of well-formed
  days the result is the mean of the numeric day means, and 0 when there are none
  (\<open>average_day_mean_well_formed\<close>, \<open>average_day_mean_absent\<close>).
\<close>

theorem average_day_mean_null_entry: "average_day_mean venue_null_day = Inl AttributeError"
  by (simp add: average_day_mean_def venue_null_day_def dict_get_def py_or_def)

section \<open>Properties of the poll loop\<close>

lemma besttime_get_json_progress:
  "besttime_get_json p base ''venues/progress'' (progress_params j c) w =
     (case reply p (length (sent w)) (progress_request base j c) of
        None \<Rightarrow> Inl RequestException
      | Some r \<Rightarrow>
          if ok r then (case json_body r of Some b \<Rightarrow> Inr (Body b) | None \<Rightarrow> Inl JSONDecodeError)
          else Inr (BodyStatus (error_body r) (status_code r)),
      after_call p base j c w)"
  by (simp add: besttime_get_json_def requests_get_def progress_request_def lstrip_slash_def
      after_call_def error_body_def Let_def split: option.splits)

lemma poll_exit:
  "\<not> clock w < deadline \<Longrightarrow>
   poll_loop p base j c deadline i lr a w = Some (Inr (None, lr), w)"
  by (subst poll_loop.simps) simp

lemma poll_raise:
  assumes "clock w < deadline" and "call_outcome p base j c w = Inl e"
  shows "poll_loop p base j c deadline i lr a w = Some (Inl e, after_call p base j c w)"
  using assms
  by (subst poll_loop.simps)
     (auto simp: besttime_get_json_progress [unfolded progress_params_def] call_outcome_def
        poll_body_def split: option.splits if_splits)

lemma poll_found:
  assumes "clock w < deadline" and "call_outcome p base j c w = Inr b"
    and "find_venues b = Some vs"
  shows "poll_loop p base j c deadline i lr a w =
    Some (Inr (Some vs, b), after_call p base j c w)"
  using assms
  by (subst poll_loop.simps)
     (auto simp: besttime_get_json_progress [unfolded progress_params_def] call_outcome_def
        poll_body_def split: option.splits if_splits)

lemma poll_again:
  assumes "clock w < deadline" and "call_outcome p base j c w = Inr b"
    and "find_venues b = None" and "0 \<le> i"
  shows "poll_loop p base j c deadline i lr a w =
    poll_loop p base j c deadline (min (i * (3 / 2)) 8) b (a + 1)
      ((after_call p base j c w)\<lparr>clock := clock (after_call p base j c w) + i\<rparr>)"
  using assms
  by (subst poll_loop.simps)
     (auto simp: besttime_get_json_progress [unfolded progress_params_def] call_outcome_def
        poll_body_def sleep_def Let_def split: option.splits if_splits)

lemma after_call_clock:
  "clock (after_call p base j c w) = clock w + latency p (length (sent w))"
  by (simp add: after_call_def)

lemma call_outcome_error:
  "call_outcome p base j c w = Inl e \<Longrightarrow> e = RequestException \<or> e = JSONDecodeError"
  by (auto simp: call_outcome_def poll_body_def split: option.splits if_splits)

lemma nonempty_list_at_Some:
  "nonempty_list_at d k = Some vs \<longleftrightarrow> list_at d k = Some vs \<and> vs \<noteq> []"
  by (cases "list_at d k") (auto simp: nonempty_list_at_def)

lemma nonempty_list_at_None:
  "nonempty_list_at d k = None \<longleftrightarrow> list_at d k \<in> {None, Some []}"
  by (cases "list_at d k") (auto simp: nonempty_list_at_def)

lemma first_list_under_nonempty: "first_list_under d ks = Some vs \<Longrightarrow> vs \<noteq> []"
proof (induction ks)
  case Nil
  then show ?case by simp
next
  case (Cons k ks)
  then show ?case
    by (cases "nonempty_list_at d k") (auto simp: nonempty_list_at_Some)
qed

lemma find_venues_JDict: "find_venues (JDict d) = first_list_under d venue_keys"
  by (simp add: find_venues_def venue_keys_def)

lemma find_venues_nonempty: "find_venues b = Some vs \<Longrightarrow> vs \<noteq> []"
proof (cases b)
  case (JDict d)
  assume "find_venues b = Some vs"
  then have "first_list_under d venue_keys = Some vs"
    by (simp only: JDict find_venues_JDict)
  then show ?thesis by (rule first_list_under_nonempty)
qed (simp_all add: find_venues_def)


lemma poll_loop_terminates:
  assumes lat: "\<And>k. 0 \<le> latency p k \<and> latency p k \<le> L"
    and m: "0 < m" "m \<le> 8" and M: "8 \<le> M"
  shows "m \<le> i \<Longrightarrow> i \<le> M \<Longrightarrow> deadline - clock w \<le> real n * m
    \<Longrightarrow> clock w < deadline + L + M
    \<Longrightarrow> \<exists>res w'. poll_loop p base j c deadline i lr a w = Some (res, w')
          \<and> terminal deadline res w' \<and> clock w' < deadline + L + M"
proof (induction n arbitrary: i lr a w)
  case 0
  then have ex: "\<not> clock w < deadline" by simp
  show ?case using "0.prems"(4) ex by (simp add: poll_exit [OF ex] terminal_def)
next
  case (Suc n)
  let ?w1 = "after_call p base j c w"
  show ?case
  proof (cases "clock w < deadline")
    case False
    then show ?thesis using Suc.prems(4) by (simp add: poll_exit [OF False] terminal_def)
  next
    case True
    have c1: "clock ?w1 < deadline + L + M"
      using True lat [of "length (sent w)"] M unfolding after_call_clock by linarith
    show ?thesis
    proof (cases "call_outcome p base j c w")
      case (Inl e)
      show ?thesis using c1 call_outcome_error [OF Inl]
        by (auto simp: poll_raise [OF True Inl] terminal_def)
    next
      case (Inr b)
      show ?thesis
      proof (cases "find_venues b")
        case (Some vs)
        show ?thesis using c1 find_venues_nonempty [OF Some]
          by (simp add: poll_found [OF True Inr Some] Some terminal_def)
      next
        case None
        let ?w2 = "?w1\<lparr>clock := clock ?w1 + i\<rparr>"
        let ?i' = "min (i * (3 / 2)) 8"
        have i0: "0 < i" using m(1) Suc.prems(1) by linarith
        have step: "poll_loop p base j c deadline i lr a w =
            poll_loop p base j c deadline ?i' b (a + 1) ?w2"
          by (rule poll_again [OF True Inr None]) (use i0 in linarith)
        have lk: "0 \<le> latency p (length (sent w))" "latency p (length (sent w)) \<le> L"
          using lat [of "length (sent w)"] by simp_all
        have cw2: "clock ?w2 = clock w + latency p (length (sent w)) + i"
          by (simp add: after_call_clock)
        have "m \<le> i * (3 / 2)" using Suc.prems(1) i0 by linarith
        then have a1: "m \<le> ?i'" using m(2) by simp
        have a2: "?i' \<le> M" using M by (simp add: min_le_iff_disj)
        have sn: "real (Suc n) * m = real n * m + m"
          by (simp add: distrib_right)
        have a3: "deadline - clock ?w2 \<le> real n * m"
          using Suc.prems(1,3) lk(1) unfolding cw2 sn by linarith
        have a4: "clock ?w2 < deadline + L + M"
          using True lk(2) Suc.prems(2) unfolding cw2 by linarith
        from Suc.IH [OF a1 a2 a3 a4] show ?thesis by (simp only: step)
      qed
    qed
  qed
qed


lemma wait_resolved:
  "wait_for_progress_and_get_venues p base qp job coll url T i w = Some (Inl ValueError, w)
   \<or> (\<exists>j c. j \<noteq> [] \<and> c \<noteq> []
        \<and> wait_for_progress_and_get_venues p base qp job coll url T i w =
            poll_loop p base j c (clock w + T) i JNone 0 w)"
  by (auto simp: wait_for_progress_and_get_venues_def Let_def split: prod.splits option.splits)

lemma wait_ids:
  "job \<noteq> [] \<Longrightarrow> coll \<noteq> [] \<Longrightarrow>
   wait_for_progress_and_get_venues p base qp (Some job) (Some coll) url T i w =
     poll_loop p base job coll (clock w + T) i JNone 0 w"
  by (simp add: wait_for_progress_and_get_venues_def str_or_def str_truthy_def
      split: option.splits)

lemma arch_steps:
  fixes T m :: real
  assumes "0 < m"
  shows "\<exists>n. T \<le> real n * m"
proof -
  obtain n where "T / m \<le> real n" using real_arch_simple by blast
  with assms have "T \<le> real n * m" by (simp add: pos_divide_le_eq)
  then show ?thesis by blast
qed

lemma wait_terminal:
  assumes T: "0 < T" and i: "0 < i"
    and lat: "\<And>k. 0 \<le> latency p k \<and> latency p k \<le> L"
  shows "\<exists>res w'. wait_for_progress_and_get_venues p base qp job coll url T i w = Some (res, w')
      \<and> terminal (clock w + T) res w'
      \<and> clock w' < clock w + T + L + max i 8"
proof -
  let ?W = "wait_for_progress_and_get_venues p base qp job coll url T i w"
  have L0: "0 \<le> L" using lat [of 0] by linarith
  have a4: "clock w < clock w + T + L + max i 8" using T L0 by simp
  from wait_resolved [of p base qp job coll url T i w]
  consider (start) "?W = Some (Inl ValueError, w)"
    | (polls) j c where "?W = poll_loop p base j c (clock w + T) i JNone 0 w"
    by blast
  then show ?thesis
  proof cases
    case start
    with a4 show ?thesis by (simp add: terminal_def)
  next
    case polls
    have m0: "0 < min i 8" using i by simp
    from arch_steps [OF m0, of T] obtain n where "T \<le> real n * min i 8" by blast
    then have a3: "(clock w + T) - clock w \<le> real n * min i 8" by simp
    have "\<exists>res w'. poll_loop p base j c (clock w + T) i JNone 0 w = Some (res, w')
          \<and> terminal (clock w + T) res w' \<and> clock w' < (clock w + T) + L + max i 8"
      using lat m0 a3 a4
      by (intro poll_loop_terminates [where m = "min i 8" and n = n]) simp_all
    then show ?thesis by (simp only: polls)
  qed
qed

lemma two_polls:
  assumes lat: "\<And>k. 0 \<le> latency p k"
    and never: "\<And>k. \<exists>b. poll_body (reply p k (progress_request base j c)) = Inr b
                  \<and> find_venues b = None"
  shows "\<exists>lr w'. poll_loop p base j c (clock w + 5) 2 JNone 0 w = Some (Inr (None, lr), w')
    \<and> clock w + 5 \<le> clock w'
    \<and> (if latency p (length (sent w)) < 3 then
         sent w' = sent w @
           [(clock w, progress_request base j c),
            (clock w + latency p (length (sent w)) + 2, progress_request base j c)]
         \<and> clock w' =
             clock w + latency p (length (sent w)) + latency p (Suc (length (sent w))) + 5
         \<and> poll_body (reply p (Suc (length (sent w))) (progress_request base j c)) = Inr lr
       else
         sent w' = sent w @ [(clock w, progress_request base j c)]
         \<and> clock w' = clock w + latency p (length (sent w)) + 2
         \<and> poll_body (reply p (length (sent w)) (progress_request base j c)) = Inr lr)"
proof -
  let ?rq = "progress_request base j c"
  let ?l0 = "latency p (length (sent w))"
  let ?l1 = "latency p (Suc (length (sent w)))"
  from never [of "length (sent w)"] obtain b0 where
    pb0: "poll_body (reply p (length (sent w)) ?rq) = Inr b0" and nv0: "find_venues b0 = None"
    by blast
  from pb0 have b0: "call_outcome p base j c w = Inr b0" by (simp add: call_outcome_def)
  define w1 where "w1 = (after_call p base j c w)\<lparr>clock := clock (after_call p base j c w) + 2\<rparr>"
  have s1: "poll_loop p base j c (clock w + 5) 2 JNone 0 w =
      poll_loop p base j c (clock w + 5) (min (2 * (3 / 2)) 8) b0 (0 + 1) w1"
    unfolding w1_def by (rule poll_again [OF _ b0 nv0]) simp_all
  have i1: "min (2 * (3 / 2)) (8::real) = 3" by simp
  have cw1: "clock w1 = clock w + ?l0 + 2" by (simp add: w1_def after_call_def)
  have sw1: "sent w1 = sent w @ [(clock w, ?rq)]" by (simp add: w1_def after_call_def)
  show ?thesis
  proof (cases "?l0 < 3")
    case True
    have lt: "clock w1 < clock w + 5" using True cw1 by simp
    from never [of "Suc (length (sent w))"] obtain b1 where
      pb1: "poll_body (reply p (Suc (length (sent w))) ?rq) = Inr b1"
      and nv1: "find_venues b1 = None"
      by blast
    from pb1 have b1: "call_outcome p base j c w1 = Inr b1"
      by (simp add: call_outcome_def sw1)
    define w2 where
      "w2 = (after_call p base j c w1)\<lparr>clock := clock (after_call p base j c w1) + 3\<rparr>"
    have s2: "poll_loop p base j c (clock w + 5) 3 b0 (0 + 1) w1 =
        poll_loop p base j c (clock w + 5) (min (3 * (3 / 2)) 8) b1 (0 + 1 + 1) w2"
      unfolding w2_def by (rule poll_again [OF lt b1 nv1]) simp
    have cw2: "clock w2 = clock w + ?l0 + ?l1 + 5"
      by (simp add: w2_def after_call_def cw1 sw1)
    have sw2: "sent w2 = sent w @ [(clock w, ?rq), (clock w + ?l0 + 2, ?rq)]"
      by (simp add: w2_def after_call_def cw1 sw1)
    have ex: "\<not> clock w2 < clock w + 5"
      using lat [of "length (sent w)"] lat [of "Suc (length (sent w))"] unfolding cw2
      by linarith
    have run: "poll_loop p base j c (clock w + 5) 2 JNone 0 w = Some (Inr (None, b1), w2)"
      by (simp only: s1 i1 s2 poll_exit [OF ex])
    have late: "clock w + 5 \<le> clock w2" using ex by simp
    from run late True sw2 cw2 pb1 show ?thesis by auto
  next
    case False
    have ex: "\<not> clock w1 < clock w + 5" using False cw1 by simp
    have run: "poll_loop p base j c (clock w + 5) 2 JNone 0 w = Some (Inr (None, b0), w1)"
      by (simp only: s1 i1 poll_exit [OF ex])
    have late: "clock w + 5 \<le> clock w1" using ex by simp
    from run late False sw1 cw1 pb0 show ?thesis by auto
  qed
qed

lemma poll_loop_sent:
  "poll_loop p base j c deadline i lr a w = Some y \<Longrightarrow>
   \<exists>ts. sent (snd y) = sent w @ map (\<lambda>t. (t, progress_request base j c)) ts"
proof (induction rule: poll_loop.raw_induct [rotated 1, consumes 1])
  case (1 f p base j c deadline i lr a w y)
  show ?case
  proof (cases "clock w < deadline")
    case False
    with 1(2) have "y = (Inr (None, lr), w)" by simp
    then show ?thesis by simp
  next
    case True
    let ?w1 = "after_call p base j c w"
    have s1: "sent ?w1 = sent w @ map (\<lambda>t. (t, progress_request base j c)) [clock w]"
      by (simp add: after_call_def)
    show ?thesis
    proof (cases "call_outcome p base j c w")
      case (Inl e)
      with True 1(2) have "y = (Inl e, ?w1)"
        by (auto simp: besttime_get_json_progress [unfolded progress_params_def]
            call_outcome_def poll_body_def split: option.splits if_splits)
      with s1 show ?thesis by (metis snd_conv)
    next
      case (Inr b)
      show ?thesis
      proof (cases "find_venues b")
        case (Some vs)
        with True Inr 1(2) have "y = (Inr (Some vs, b), ?w1)"
          by (auto simp: besttime_get_json_progress [unfolded progress_params_def]
              call_outcome_def poll_body_def split: option.splits if_splits)
        with s1 show ?thesis by (metis snd_conv)
      next
        case None
        show ?thesis
        proof (cases "i < 0")
          case neg: True
          with None True Inr 1(2) have "y = (Inl ValueError, ?w1)"
            by (auto simp: besttime_get_json_progress [unfolded progress_params_def]
                call_outcome_def poll_body_def sleep_def split: option.splits if_splits)
          with s1 show ?thesis by (metis snd_conv)
        next
          case nonneg: False
          let ?w2 = "?w1\<lparr>clock := clock ?w1 + i\<rparr>"
          from nonneg None True Inr 1(2)
          have "f p base j c deadline (min (i * (3 / 2)) 8) b (a + 1) ?w2 = Some y"
            by (auto simp: besttime_get_json_progress [unfolded progress_params_def]
                call_outcome_def poll_body_def sleep_def Let_def split: option.splits if_splits)
          from 1(1) [OF this] obtain ts where
            "sent (snd y) = sent ?w2 @ map (\<lambda>t. (t, progress_request base j c)) ts"
            by blast
          then have "sent (snd y) =
              sent w @ map (\<lambda>t. (t, progress_request base j c)) (clock w # ts)"
            by (simp add: after_call_def)
          then show ?thesis by blast
        qed
      qed
    qed
  qed
qed

lemma progress_get_request: "progress_get base (progress_request base j c)"
  by (simp add: progress_get_def progress_request_def progress_params_def)

lemma quiet_run:
  "wait_for_progress_and_get_venues quiet_provider base0 no_query (Some ''j'') (Some ''c'') None
       5 2 world0 =
     Some (Inr (None, JDict []),
       \<lparr>clock = 5,
        sent = [(0, progress_request base0 ''j'' ''c''), (2, progress_request base0 ''j'' ''c'')]\<rparr>)"
  unfolding wait_ids [of "''j''" "''c''", simplified]
  by (subst poll_loop.simps,
      simp add: world0_def quiet_provider_def ok_response_def
        besttime_get_json_progress [unfolded progress_params_def] after_call_def ok_def
        find_venues_def nonempty_list_at_def list_at_def sleep_def Let_def)+

lemma quiet_late:
  "wait_for_progress_and_get_venues quiet_provider base0 no_query (Some ''j'') (Some ''c'') None
       1 2 world0 =
     Some (Inr (None, JDict []),
       \<lparr>clock = 2, sent = [(0, progress_request base0 ''j'' ''c'')]\<rparr>)"
  unfolding wait_ids [of "''j''" "''c''", simplified]
  by (subst poll_loop.simps,
      simp add: world0_def quiet_provider_def ok_response_def
        besttime_get_json_progress [unfolded progress_params_def] after_call_def ok_def
        find_venues_def nonempty_list_at_def list_at_def sleep_def Let_def)+





text \<open>
  C2, as the code has it. With a positive timeout, a positive interval and calls that each
  take between 0 and \<open>L\<close> seconds, the call returns, and it ends in one of the outcomes of
  \<open>terminal\<close>: an exception, no venues at or after the deadline, or a non-empty venue list.
  It returns before \<open>deadline + L + max interval 8\<close>, not before the deadline: the clock is
  read only at the head of the loop, so the last call and the last sleep can pass it.
\<close>

theorem wait_terminates:
  assumes "0 < timeout_seconds" and "0 < interval_seconds"
    and "\<forall>k. 0 \<le> latency p k \<and> latency p k \<le> L"
  shows "\<exists>res w'. wait_for_progress_and_get_venues p base qp job coll url
              timeout_seconds interval_seconds w = Some (res, w')
    \<and> terminal (clock w + timeout_seconds) res w'
    \<and> clock w' < clock w + timeout_seconds + L + max interval_seconds 8"
  using assms by (intro wait_terminal) simp_all

theorem wait_terminates_witness:
  "(0::real) < 1 \<and> (0::real) < 2
   \<and> (\<forall>k. 0 \<le> latency quiet_provider k \<and> latency quiet_provider k \<le> 0)
   \<and> (\<exists>res w'. wait_for_progress_and_get_venues quiet_provider base0 no_query
                  (Some ''j'') (Some ''c'') None 1 2 world0 = Some (res, w')
          \<and> terminal (clock world0 + 1) res w'
          \<and> clock w' < clock world0 + 1 + 0 + max 2 8)"
  using wait_terminates [of 1 2 quiet_provider 0 base0 no_query "Some ''j''" "Some ''c''" None world0]
  by (simp add: quiet_provider_def)

text \<open>
  C2 as stated fails: with a timeout of 1 second and an interval of 2 seconds the call
  returns at time 2, after the deadline at time 1.
\<close>

theorem wait_deadline_counterexample:
  "wait_for_progress_and_get_venues quiet_provider base0 no_query (Some ''j'') (Some ''c'') None
       1 2 world0 =
     Some (Inr (None, JDict []),
       \<lparr>clock = 2, sent = [(0, progress_request base0 ''j'' ''c'')]\<rparr>)
   \<and> \<not> clock \<lparr>clock = 2, sent = [(0, progress_request base0 ''j'' ''c'')]\<rparr>
        \<le> clock world0 + 1"
  using quiet_late by (simp add: world0_def)

text \<open>
  C3, as the code has it. With a timeout of 5 seconds, an initial interval of 2 seconds and
  a provider that never returns venues (and never fails to answer with a body), the loop
  makes two progress polls, not three: the first at the start, the second 2 seconds after
  the first answer, and after the second answer it sleeps 3 seconds, which passes the
  deadline. It returns no venues and the body of the second answer, 5 seconds plus the
  time taken by the two calls after the start. (A first call that takes 3 seconds or more
  leaves a single poll.)
\<close>

theorem poll_timeout_schedule:
  assumes "job \<noteq> []" and "coll \<noteq> []"
    and "\<forall>k. 0 \<le> latency p k"
    and "\<forall>k. \<exists>b. poll_body (reply p k (progress_request base job coll)) = Inr b
            \<and> find_venues b = None"
  shows "\<exists>lr w'. wait_for_progress_and_get_venues p base qp (Some job) (Some coll) url 5 2 w
            = Some (Inr (None, lr), w')
    \<and> clock w + 5 \<le> clock w'
    \<and> (if latency p (length (sent w)) < 3 then
         sent w' = sent w @
           [(clock w, progress_request base job coll),
            (clock w + latency p (length (sent w)) + 2, progress_request base job coll)]
         \<and> clock w' =
             clock w + latency p (length (sent w)) + latency p (Suc (length (sent w))) + 5
         \<and> poll_body (reply p (Suc (length (sent w))) (progress_request base job coll)) = Inr lr
       else
         sent w' = sent w @ [(clock w, progress_request base job coll)]
         \<and> clock w' = clock w + latency p (length (sent w)) + 2
         \<and> poll_body (reply p (length (sent w)) (progress_request base job coll)) = Inr lr)"
  unfolding wait_ids [OF assms(1,2)]
  using assms(3,4) by (intro two_polls) simp_all

theorem poll_timeout_schedule_witness:
  "(\<forall>k. 0 \<le> latency quiet_provider k)
   \<and> (\<forall>k. \<exists>b. poll_body (reply quiet_provider k (progress_request base0 ''j'' ''c'')) = Inr b
          \<and> find_venues b = None)
   \<and> (\<exists>lr w'. wait_for_progress_and_get_venues quiet_provider base0 no_query
                 (Some ''j'') (Some ''c'') None 5 2 world0 = Some (Inr (None, lr), w')
          \<and> sent w' =
              [(0, progress_request base0 ''j'' ''c''), (2, progress_request base0 ''j'' ''c'')]
          \<and> clock w' = 5 \<and> lr = JDict [])"
  using poll_timeout_schedule [of "''j''" "''c''" quiet_provider base0 no_query None world0]
  by (simp add: quiet_provider_def ok_response_def poll_body_def ok_def find_venues_def
      nonempty_list_at_def list_at_def world0_def eq_commute [of "JDict []"]) blast

text \<open>
  C3 as stated fails: with calls that take no time the run makes exactly two polls, at
  times 0 and 2, and returns at time 5; there is no third poll at time 4.
\<close>

theorem poll_timeout_counterexample:
  "wait_for_progress_and_get_venues quiet_provider base0 no_query (Some ''j'') (Some ''c'') None
       5 2 world0 =
     Some (Inr (None, JDict []),
       \<lparr>clock = 5,
        sent = [(0, progress_request base0 ''j'' ''c''), (2, progress_request base0 ''j'' ''c'')]\<rparr>)
   \<and> length [(0::real, progress_request base0 ''j'' ''c''), (2, progress_request base0 ''j'' ''c'')]
       \<noteq> 3"
  using quiet_run by simp

text \<open>
  C4, as the code has it. Every request a returning call has sent is a \<^verbatim>\<open>GET\<close> of
  \<^verbatim>\<open>venues/progress\<close> under the base URL whose query parameters are exactly
  \<^verbatim>\<open>job_id\<close>, \<^verbatim>\<open>collection_id\<close> and \<^verbatim>\<open>format=raw\<close>. No \<^verbatim>\<open>api_key_private\<close> is among
  them: \<^verbatim>\<open>besttime_get_json\<close> passes the parameters on as given.
\<close>

theorem progress_requests:
  assumes "wait_for_progress_and_get_venues p base qp job coll url
             timeout_seconds interval_seconds w = Some (res, w')"
  shows "\<exists>new. sent w' = sent w @ new \<and> list_all (\<lambda>(t, rq). progress_get base rq) new"
proof -
  from wait_resolved [of p base qp job coll url timeout_seconds interval_seconds w]
  consider (start) "wait_for_progress_and_get_venues p base qp job coll url
        timeout_seconds interval_seconds w = Some (Inl ValueError, w)"
    | (polls) j c where "wait_for_progress_and_get_venues p base qp job coll url
        timeout_seconds interval_seconds w =
          poll_loop p base j c (clock w + timeout_seconds) interval_seconds JNone 0 w"
    by blast
  then show ?thesis
  proof cases
    case start
    with assms have "w' = w" by simp
    then show ?thesis by simp
  next
    case polls
    with assms have "poll_loop p base j c (clock w + timeout_seconds) interval_seconds JNone 0 w
        = Some (res, w')"
      by simp
    from poll_loop_sent [OF this] obtain ts where
      "sent w' = sent w @ map (\<lambda>t. (t, progress_request base j c)) ts"
      by auto
    moreover have "list_all (\<lambda>(t, rq). progress_get base rq)
        (map (\<lambda>t. (t, progress_request base j c)) ts)"
      by (simp add: list_all_iff progress_get_request)
    ultimately show ?thesis by blast
  qed
qed

theorem progress_requests_witness:
  "wait_for_progress_and_get_venues quiet_provider base0 no_query (Some ''j'') (Some ''c'') None
       5 2 world0 =
     Some (Inr (None, JDict []),
       \<lparr>clock = 5,
        sent = [(0, progress_request base0 ''j'' ''c''), (2, progress_request base0 ''j'' ''c'')]\<rparr>)
   \<and> list_all (\<lambda>(t, rq). progress_get base0 rq)
        [(0::real, progress_request base0 ''j'' ''c''), (2, progress_request base0 ''j'' ''c'')]"
  using progress_requests [OF quiet_run] quiet_run
  by (simp add: world0_def)

text \<open>
  C4 as stated fails: the two requests of this run carry the three parameters and no
  \<^verbatim>\<open>api_key_private\<close>.
\<close>

theorem progress_requests_counterexample:
  "wait_for_progress_and_get_venues quiet_provider base0 no_query (Some ''j'') (Some ''c'') None
       5 2 world0 =
     Some (Inr (None, JDict []),
       \<lparr>clock = 5,
        sent = [(0, progress_request base0 ''j'' ''c''), (2, progress_request base0 ''j'' ''c'')]\<rparr>)
   \<and> req_params (progress_request base0 ''j'' ''c'') =
       [(''job_id'', JStr ''j''), (''collection_id'', JStr ''c''), (''format'', JStr ''raw'')]
   \<and> map_of (req_params (progress_request base0 ''j'' ''c'')) ''api_key_private'' = None"
  using quiet_run by (simp add: progress_request_def progress_params_def)

section \<open>Properties of the venue extraction\<close>

lemma first_match_0:
  "first_match d (k # ks) 0 vs \<longleftrightarrow> nonempty_list_at d k = Some vs"
  by (simp add: first_match_def nonempty_list_at_Some)

lemma first_match_Suc:
  "first_match d (k # ks) (Suc n) vs \<longleftrightarrow> nonempty_list_at d k = None \<and> first_match d ks n vs"
  by (auto simp: first_match_def nonempty_list_at_None)

lemma first_match_split:
  "(\<exists>n. first_match d (k # ks) n vs) \<longleftrightarrow>
     nonempty_list_at d k = Some vs
     \<or> (nonempty_list_at d k = None \<and> (\<exists>n. first_match d ks n vs))"
proof
  assume "\<exists>n. first_match d (k # ks) n vs"
  then obtain n where n: "first_match d (k # ks) n vs" by blast
  show "nonempty_list_at d k = Some vs
      \<or> (nonempty_list_at d k = None \<and> (\<exists>n. first_match d ks n vs))"
  proof (cases n)
    case 0
    with n show ?thesis by (simp add: first_match_0)
  next
    case (Suc n')
    with n show ?thesis by (auto simp: first_match_Suc)
  qed
next
  assume "nonempty_list_at d k = Some vs
      \<or> (nonempty_list_at d k = None \<and> (\<exists>n. first_match d ks n vs))"
  then show "\<exists>n. first_match d (k # ks) n vs"
  proof
    assume "nonempty_list_at d k = Some vs"
    then have "first_match d (k # ks) 0 vs" by (simp add: first_match_0)
    then show ?thesis by blast
  next
    assume "nonempty_list_at d k = None \<and> (\<exists>n. first_match d ks n vs)"
    then obtain n where "first_match d (k # ks) (Suc n) vs"
      by (auto simp: first_match_Suc)
    then show ?thesis by blast
  qed
qed

lemma first_list_under_iff:
  "first_list_under d ks = Some vs \<longleftrightarrow> (\<exists>n. first_match d ks n vs)"
proof (induction ks)
  case Nil
  show ?case by (simp add: first_match_def)
next
  case (Cons k ks)
  show ?case
    unfolding first_match_split
    using Cons.IH by (cases "nonempty_list_at d k") auto
qed

lemma fast_path_first_match:
  assumes "first_match d venue_keys n vs"
  shows "fast_path_venues (JDict d) =
    (if n = 0 \<or> (n = 1 \<and> list_at d ''venues'' = None) then vs else [])"
proof -
  from assms have "n < 4" by (simp add: first_match_def venue_keys_def)
  then consider "n = 0" | "n = 1" | "n = 2" | "n = 3" by linarith
  then show ?thesis
  proof cases
    case 1
    with assms show ?thesis
      by (simp add: first_match_def venue_keys_def fast_path_venues_def)
  next
    case 2
    with assms have "list_at d ''results'' = Some vs"
      and "list_at d ''venues'' = None \<or> list_at d ''venues'' = Some []"
      by (simp_all add: first_match_def venue_keys_def)
    with 2 show ?thesis
      by (auto simp: fast_path_venues_def)
  next
    case 3
    with assms have "list_at d ''venues'' = None \<or> list_at d ''venues'' = Some []"
      and "list_at d ''results'' = None \<or> list_at d ''results'' = Some []"
      by (simp_all add: first_match_def venue_keys_def numeral_2_eq_2)
    with 3 show ?thesis
      by (auto simp: fast_path_venues_def)
  next
    case 4
    with assms have "list_at d ''venues'' = None \<or> list_at d ''venues'' = Some []"
      and "list_at d ''results'' = None \<or> list_at d ''results'' = Some []"
      by (simp_all add: first_match_def venue_keys_def numeral_3_eq_3)
    with 4 show ?thesis
      by (auto simp: fast_path_venues_def)
  qed
qed

lemma fast_path_no_match:
  assumes "find_venues b = None"
  shows "fast_path_venues b = []"
proof (cases b)
  case (JDict d)
  from assms have "nonempty_list_at d ''venues'' = None"
    and "nonempty_list_at d ''results'' = None"
    by (auto simp: JDict find_venues_def split: option.splits)
  then have "list_at d ''venues'' = None \<or> list_at d ''venues'' = Some []"
    and "list_at d ''results'' = None \<or> list_at d ''results'' = Some []"
    by (simp_all add: nonempty_list_at_None)
  then show ?thesis by (auto simp: JDict fast_path_venues_def)
qed (simp_all add: fast_path_venues_def)

text \<open>
  C9, as the code has it. The poll loop finds a venue list exactly when the body is a
  dictionary in which one of \<^verbatim>\<open>venues\<close>, \<^verbatim>\<open>results\<close>, \<^verbatim>\<open>items\<close>, \<^verbatim>\<open>found_venues\<close> is
  bound to a non-empty list, and it returns the list of the first such key. The fast path
  of the search response is narrower: it takes that list only when the key is \<^verbatim>\<open>venues\<close>,
  or \<^verbatim>\<open>results\<close> with \<^verbatim>\<open>venues\<close> not bound to a list; in every other case, and when the
  poll loop would find nothing, it takes no venues.
\<close>

theorem venue_extraction:
  "(find_venues b = Some vs \<longleftrightarrow> (\<exists>d n. b = JDict d \<and> first_match d venue_keys n vs))
   \<and> (find_venues b = None \<longrightarrow> fast_path_venues b = [])
   \<and> (first_match d venue_keys n vs \<longrightarrow>
        fast_path_venues (JDict d) =
          (if n = 0 \<or> (n = 1 \<and> list_at d ''venues'' = None) then vs else []))"
proof -
  have "find_venues b = Some vs \<longleftrightarrow> (\<exists>d n. b = JDict d \<and> first_match d venue_keys n vs)"
  proof (cases b)
    case (JDict d')
    show ?thesis
      by (simp add: JDict find_venues_JDict first_list_under_iff)
  qed (simp_all add: find_venues_def)
  with fast_path_no_match [of b] fast_path_first_match [of d n vs] show ?thesis
    by blast
qed

theorem venue_extraction_witness:
  "first_match empty_venues_and_results venue_keys 1 [JStr ''r'']
   \<and> find_venues (JDict empty_venues_and_results) = Some [JStr ''r'']
   \<and> fast_path_venues (JDict empty_venues_and_results) = []"
proof -
  note extraction = venue_extraction
    [of "JDict empty_venues_and_results" "[JStr ''r'']" empty_venues_and_results 1]
  have first: "first_match empty_venues_and_results venue_keys 1 [JStr ''r'']"
    by (simp add: first_match_def venue_keys_def empty_venues_and_results_def list_at_def)
  from extraction first
  have "find_venues (JDict empty_venues_and_results) = Some [JStr ''r'']"
    by blast
  moreover from extraction first
  have "fast_path_venues (JDict empty_venues_and_results) =
      (if (1::nat) = 0 \<or> ((1::nat) = 1 \<and> list_at empty_venues_and_results ''venues'' = None)
       then [JStr ''r''] else [])"
    by blast
  then have "fast_path_venues (JDict empty_venues_and_results) = []"
    by (simp add: empty_venues_and_results_def list_at_def)
  ultimately show ?thesis using first by simp
qed

text \<open>
  C9 as stated fails for the fast path: a search response whose only venue list is under
  \<^verbatim>\<open>items\<close> gives no immediate venues, though the poll loop finds them in the same body.
\<close>

theorem venue_extraction_counterexample:
  "fast_path_venues items_only = [] \<and> find_venues items_only = Some [JStr ''v'']"
  by (simp add: items_only_def fast_path_venues_def find_venues_def nonempty_list_at_def
      list_at_def)

end
